theory Spec2Isabelle
  imports Main "HOL-Library.Product_Lexorder"
begin

section \<open>Strings\<close>

text \<open>
  A JavaScript string is a sequence of UTF-16 code units. The model uses \<open>string\<close>
  (a list of \<open>char\<close>), so it covers the code units below 256. On these, the regular
  expression class \<open>\s\<close> and \<open>String.prototype.trim\<close> treat TAB, LF, VT, FF, CR, SPACE
  and NBSP as white space, LF and CR are the line terminators, and \<open>\d\<close> is \<open>0\<close>..\<open>9\<close>.
\<close>

definition LF :: char where
  "LF = CHR 0x0A"

definition CR :: char where
  "CR = CHR 0x0D"

definition SP :: char where
  "SP = CHR 0x20"

definition is_space :: "char \<Rightarrow> bool" where
  "is_space c \<longleftrightarrow>
     c = CHR 0x09 \<or> c = CHR 0x0A \<or> c = CHR 0x0B \<or> c = CHR 0x0C \<or> c = CHR 0x0D
     \<or> c = CHR 0x20 \<or> c = CHR 0xA0"

definition is_line_terminator :: "char \<Rightarrow> bool" where
  "is_line_terminator c \<longleftrightarrow> c = CHR 0x0A \<or> c = CHR 0x0D"

definition is_digit :: "char \<Rightarrow> bool" where
  "is_digit c \<longleftrightarrow> c \<in> set ''0123456789''"

text \<open>\<open>String.prototype.trim\<close>: white space is removed from both ends.\<close>

definition trim :: "string \<Rightarrow> string" where
  "trim s = rev (dropWhile is_space (rev (dropWhile is_space s)))"

text \<open>
  Decimal notation of a non-negative integer (\<^verbatim>\<open>`${n}`\<close>) and its reading by
  \<^verbatim>\<open>Number.parseInt(s, 10)\<close> on a string of digits. The integers of the program are
  capture indices, page numbers and list lengths; they are far below \<open>2^53\<close>, where both
  conversions are exact, and are modelled as \<open>nat\<close> or \<open>int\<close>.
\<close>

definition digit_char :: "nat \<Rightarrow> char" where
  "digit_char d = ''0123456789'' ! d"

definition digit_val :: "char \<Rightarrow> nat" where
  "digit_val c = of_char c - 48"

function dec :: "nat \<Rightarrow> string" where
  "dec n = (if n < 10 then [digit_char n] else dec (n div 10) @ [digit_char (n mod 10)])"
  by pat_completeness auto
termination
  by (relation "measure id") auto

declare dec.simps [simp del]

definition parse_digits :: "string \<Rightarrow> nat" where
  "parse_digits s = foldl (\<lambda>a c. 10 * a + digit_val c) 0 s"

text \<open>\<^verbatim>\<open>Array.prototype.join\<close>.\<close>

fun join :: "string \<Rightarrow> string list \<Rightarrow> string" where
  "join sep [] = []"
| "join sep [x] = x"
| "join sep (x # y # ys) = x @ sep @ join sep (y # ys)"

section \<open>Viewer observations and the change detector\<close>

text \<open>
  \<open>getBrState\<close> (capture script) reads the viewer's page number, which may be missing, and
  builds the signature from the sources of the images in the reader container:
  \<^verbatim>\<open>if (pageNum === 0) pageNum = 1\<close> and
  \<^verbatim>\<open>sig = (imgSrcs.slice(0, 12).join('|') || '') + '|' + imgSrcs.length\<close>.
  \<open>viewer_dom\<close> is what the page holds, \<open>br_state\<close> what \<open>getBrState\<close> returns; the
  fields \<open>total\<close>, \<open>title\<close>, \<open>authorMeta\<close> and \<open>footerText\<close> are not read by the capture
  loop and are left out.
\<close>

record viewer_dom =
  dom_pageNum :: "int option"
  dom_imgSrcs :: "string list"

record br_state =
  br_page :: "int option"
  br_sig :: string

definition getBrState :: "viewer_dom \<Rightarrow> br_state" where
  "getBrState d =
     \<lparr> br_page = (if dom_pageNum d = Some 0 then Some 1 else dom_pageNum d),
       br_sig = join ''|'' (take 12 (dom_imgSrcs d)) @ ''|'' @ dec (length (dom_imgSrcs d)) \<rparr>"

text \<open>\<^verbatim>\<open>st.page ?? -1\<close>\<close>

definition page_or_minus1 :: "br_state \<Rightarrow> int" where
  "page_or_minus1 st = (case br_page st of None \<Rightarrow> - 1 | Some p \<Rightarrow> p)"


text \<open>
  The test at the start of a loop iteration of \<open>captureIaBook\<close>:
  \<^verbatim>\<open>st.sig === lastSig || (st.page ?? -1) === lastPageNum\<close>.
\<close>

definition stale :: "string \<Rightarrow> int \<Rightarrow> br_state \<Rightarrow> bool" where
  "stale lastSig lastPageNum st \<longleftrightarrow> br_sig st = lastSig \<or> page_or_minus1 st = lastPageNum"

text \<open>
  What the loop remembers of the observation \<open>brBefore\<close> of capture \<open>i\<close>:
  \<^verbatim>\<open>pageNum = brBefore.page ?? i + 1\<close>, \<^verbatim>\<open>lastSig = brBefore.sig || lastSig\<close>,
  \<^verbatim>\<open>lastPageNum = pageNum\<close>.
\<close>

definition pageNum_of :: "nat \<Rightarrow> br_state \<Rightarrow> int" where
  "pageNum_of i brBefore = (case br_page brBefore of None \<Rightarrow> int i + 1 | Some p \<Rightarrow> p)"

definition next_lastSig :: "string \<Rightarrow> br_state \<Rightarrow> string" where
  "next_lastSig lastSig brBefore = (if br_sig brBefore \<noteq> [] then br_sig brBefore else lastSig)"

section \<open>Content assembler: text of one chunk\<close>

text \<open>
  \<^verbatim>\<open>chunk.text.replace(/\r/g, '').replace(/\n{2,}/g, '\n\n').replace(/\n/g, ' ').trim()\<close>
  (the sectioning loop of the assembler, the second script of transcribe-book-content.ts).
  The four calls are modelled one by one, in the order of the source.
\<close>

definition strip_cr :: "string \<Rightarrow> string" where
  "strip_cr s = filter (\<lambda>c. c \<noteq> CR) s"

text \<open>
  \<^verbatim>\<open>.replace(/\n{2,}/g, '\n\n')\<close>: scanning from the left, every maximal run of two or
  more LF is replaced by two LF; a single LF is copied.
\<close>

function collapse_newlines :: "string \<Rightarrow> string" where
  "collapse_newlines [] = []"
| "collapse_newlines (c # cs) =
     (if c = LF \<and> cs \<noteq> [] \<and> hd cs = LF
      then LF # LF # collapse_newlines (dropWhile (\<lambda>d. d = LF) cs)
      else c # collapse_newlines cs)"
  by pat_completeness auto
termination
  by (relation "measure length") (auto simp: less_Suc_eq_le length_dropWhile_le)

text \<open>\<^verbatim>\<open>.replace(/\n/g, ' ')\<close>: every LF that is left becomes one space.\<close>

definition fold_newlines :: "string \<Rightarrow> string" where
  "fold_newlines s = map (\<lambda>c. if c = LF then SP else c) s"

definition normalize_chunk_text :: "string \<Rightarrow> string" where
  "normalize_chunk_text s = trim (fold_newlines (collapse_newlines (strip_cr s)))"

section \<open>Content assembler: sections\<close>

text \<open>
  \<open>ContentChunk\<close>, \<open>TocItem\<close>, \<open>BookMeta\<close> and \<open>BookMetadata\<close> of types.ts, with the fields
  the assembler reads. \<open>metadata.json\<close> is parsed without validation, so \<open>meta\<close> may be
  missing; a missing \<open>toc\<close> behaves as the empty list in \<^verbatim>\<open>!metadata?.toc?.length\<close>.
\<close>

record content_chunk =
  c_index :: int
  c_page :: int
  c_text :: string
  c_screenshot :: string

record toc_item =
  toc_title :: string
  toc_page :: "int option"
  toc_total :: int

record book_meta =
  meta_title :: string
  meta_authorList :: "string list"

record book_metadata =
  md_meta :: "book_meta option"
  md_toc :: "toc_item list"

text \<open>
  \<^verbatim>\<open>content.reduce((m, c) => Math.max(m, c.page || 0), 0) || 0\<close>
\<close>

definition maxPage :: "content_chunk list \<Rightarrow> int" where
  "maxPage content = foldl (\<lambda>m c. max m (c_page c)) 0 content"

text \<open>
  The metadata the assembler works with: the file's, or, when the file is missing or has no
  \<open>meta\<close> or an empty \<open>toc\<close>, the synthesized one with the entries \<open>Content\<close> and \<open>End\<close>.
\<close>

definition synthesized_toc :: "content_chunk list \<Rightarrow> toc_item list" where
  "synthesized_toc content =
     (let m = maxPage content;
          t = (if m \<noteq> 0 then m else int (length content))
      in [\<lparr>toc_title = ''Content'', toc_page = Some 1, toc_total = t\<rparr>,
          \<lparr>toc_title = ''End'', toc_page = Some t, toc_total = t\<rparr>])"

definition usable :: "book_metadata option \<Rightarrow> bool" where
  "usable md \<longleftrightarrow> (case md of None \<Rightarrow> False | Some m \<Rightarrow> md_meta m \<noteq> None \<and> md_toc m \<noteq> [])"

definition effective_toc :: "book_metadata option \<Rightarrow> content_chunk list \<Rightarrow> toc_item list" where
  "effective_toc md content =
     (case md of
        None \<Rightarrow> synthesized_toc content
      | Some m \<Rightarrow> if md_meta m \<noteq> None \<and> md_toc m \<noteq> [] then md_toc m
                  else synthesized_toc content)"

text \<open>
  \<^verbatim>\<open>[...content].sort(...)\<close> by capture index, then page number. The sort of the language
  is stable, so the result is the stable sort by the pair.
\<close>

definition contentSorted :: "content_chunk list \<Rightarrow> content_chunk list" where
  "contentSorted content = sort_key (\<lambda>c. (c_index c, c_page c)) content"

text \<open>\<^verbatim>\<open>Array.prototype.findIndex\<close>; \<open>None\<close> stands for the result \<open>-1\<close>.\<close>

fun findIndex :: "('a \<Rightarrow> bool) \<Rightarrow> 'a list \<Rightarrow> nat option" where
  "findIndex P [] = None"
| "findIndex P (x # xs) = (if P x then Some 0 else map_option Suc (findIndex P xs))"

text \<open>
  \<open>computeNextIndex(currentIndex, tocIndex)\<close>; \<open>toc\<close> is \<open>metadata.toc\<close> and \<open>cs\<close> is
  \<open>contentSorted\<close>. Reading \<open>toc[tocIndex + 1]\<close> past the end gives \<open>undefined\<close>, which
  takes the first return.
\<close>

definition computeNextIndex :: "toc_item list \<Rightarrow> content_chunk list \<Rightarrow> nat \<Rightarrow> nat \<Rightarrow> nat" where
  "computeNextIndex toc cs currentIndex tocIndex =
     (if \<not> tocIndex + 1 < length toc then length cs
      else case toc_page (toc ! (tocIndex + 1)) of
        None \<Rightarrow> length cs
      | Some p \<Rightarrow>
          (let nextIndex = (case findIndex (\<lambda>c. p \<le> c_page c) cs of
                              None \<Rightarrow> length cs | Some k \<Rightarrow> k)
           in if nextIndex < currentIndex then currentIndex else nextIndex))"

text \<open>
  The sectioning loop
  \<^verbatim>\<open>for (let i = 0, index = 0; i < metadata.toc.length - 1; i++)\<close>. A section records its
  title, the bounds of \<^verbatim>\<open>contentSorted.slice(index, nextIndex)\<close>, the chunks of the slice
  and the joined text; the loop appends \<^verbatim>\<open>\n\n## title\n\ntext\<close> to the output for each.
\<close>

record book_section =
  sec_title :: string
  sec_from :: nat
  sec_to :: nat
  sec_chunks :: "content_chunk list"
  sec_text :: string

definition slice :: "nat \<Rightarrow> nat \<Rightarrow> 'a list \<Rightarrow> 'a list" where
  "slice a b xs = take (b - a) (drop a xs)"

function sections_loop :: "toc_item list \<Rightarrow> content_chunk list \<Rightarrow> nat \<Rightarrow> nat \<Rightarrow> book_section list" where
  "sections_loop toc cs i index =
     (if i + 1 < length toc then
        (case toc_page (toc ! i) of
           None \<Rightarrow> sections_loop toc cs (i + 1) index
         | Some _ \<Rightarrow>
             (let nextIndex = computeNextIndex toc cs index i;
                  chunks = slice index nextIndex cs;
                  text = join [LF, LF] (map (\<lambda>chunk. normalize_chunk_text (c_text chunk)) chunks)
              in \<lparr>sec_title = toc_title (toc ! i), sec_from = index, sec_to = nextIndex,
                   sec_chunks = chunks, sec_text = text\<rparr>
                 # sections_loop toc cs (i + 1) nextIndex))
      else [])"
  by pat_completeness auto
termination
  by (relation "measure (\<lambda>(toc, cs, i, index). length toc - i)") auto

declare sections_loop.simps [simp del]

definition render_sections :: "book_section list \<Rightarrow> string" where
  "render_sections secs =
     concat (map (\<lambda>s. [LF, LF] @ ''## '' @ sec_title s @ [LF, LF] @ sec_text s) secs)"

text \<open>
  The assembler from \<open>content.json\<close> and \<open>metadata.json\<close> to the sections of \<open>book.md\<close>;
  \<^verbatim>\<open>assert(content.length, 'no book content found')\<close> is the \<open>None\<close> result.
\<close>

definition assemble :: "book_metadata option \<Rightarrow> content_chunk list \<Rightarrow> book_section list option" where
  "assemble md content =
     (if content = [] then None
      else Some (sections_loop (effective_toc md content) (contentSorted content) 0 0))"

text \<open>
  Vocabulary of the statements about the sectioning: \<open>first_boundary p cs k\<close> says that
  \<open>k\<close> is the index of the first chunk of \<open>cs\<close> whose page number is at least \<open>p\<close>, or
  the length of \<open>cs\<close> when there is none; \<open>cursor_values\<close> lists the values the cursor
  \<open>index\<close> takes during the loop, in order.
\<close>

definition first_boundary :: "int \<Rightarrow> content_chunk list \<Rightarrow> nat \<Rightarrow> bool" where
  "first_boundary p cs k \<longleftrightarrow>
     k \<le> length cs \<and> (\<forall>j<k. c_page (cs ! j) < p) \<and> (k < length cs \<longrightarrow> p \<le> c_page (cs ! k))"

definition cursor_values :: "book_section list \<Rightarrow> nat list" where
  "cursor_values secs = concat (map (\<lambda>s. [sec_from s, sec_to s]) secs)"

text \<open>Example data: five chunks, and a table of contents whose third page number steps back.\<close>

definition chunk_at :: "int \<Rightarrow> int \<Rightarrow> content_chunk" where
  "chunk_at i p = \<lparr>c_index = i, c_page = p, c_text = ''text'', c_screenshot = ''p.png''\<rparr>"

definition example_chunks :: "content_chunk list" where
  "example_chunks = [chunk_at 0 1, chunk_at 1 2, chunk_at 2 3, chunk_at 3 5, chunk_at 4 6]"

definition example_toc :: "toc_item list" where
  "example_toc =
     [\<lparr>toc_title = ''A'', toc_page = Some 1, toc_total = 9\<rparr>,
      \<lparr>toc_title = ''B'', toc_page = Some 5, toc_total = 9\<rparr>,
      \<lparr>toc_title = ''C'', toc_page = Some 2, toc_total = 9\<rparr>,
      \<lparr>toc_title = ''End'', toc_page = Some 9, toc_total = 9\<rparr>]"

section \<open>Regular expressions\<close>

text \<open>
  The regular expressions of the source are transcribed with a few combinators that follow
  the backtracking semantics of the language. A pattern is matched at the start of the
  remaining input \<open>s\<close>; the rest of the pattern is the continuation \<open>k\<close>.

  \<open>backtrack f n\<close> is a greedy quantifier giving its repetitions back one at a time: it
  tries \<open>n\<close> repetitions, then \<open>n - 1\<close>, down to none, and takes the first count with which
  the rest of the pattern matches. \<open>rx_star P\<close> is \<open>P*\<close> and \<open>rx_plus P\<close> is \<open>P+\<close> for a
  character class \<open>P\<close>: the largest count is the length of the longest run of \<open>P\<close>
  characters; \<open>is_char x\<close> is the class of the single character \<open>x\<close>. \<open>rx_chr c\<close> is the
  literal character \<open>c\<close>, \<open>rx_dot\<close> is \<open>.\<close> (any character but a line terminator), \<open>eol\<close> is \<open>$\<close> with the flag \<open>m\<close> (end of input, or a line
  terminator follows). \<open>^\<close> with the flag \<open>m\<close> holds at the start of the input and after
  a line terminator; the scanners below carry it as the flag \<open>bol\<close>.
\<close>

definition is_char :: "char \<Rightarrow> char \<Rightarrow> bool" where
  "is_char x c \<longleftrightarrow> c = x"

fun backtrack :: "(nat \<Rightarrow> 'r option) \<Rightarrow> nat \<Rightarrow> 'r option" where
  "backtrack f 0 = f 0"
| "backtrack f (Suc n) = (case f (Suc n) of Some r \<Rightarrow> Some r | None \<Rightarrow> backtrack f n)"

definition rx_star :: "(char \<Rightarrow> bool) \<Rightarrow> (nat \<Rightarrow> string \<Rightarrow> 'r option) \<Rightarrow> string \<Rightarrow> 'r option" where
  "rx_star P k s = backtrack (\<lambda>i. k i (drop i s)) (length (takeWhile P s))"

definition rx_plus :: "(char \<Rightarrow> bool) \<Rightarrow> (nat \<Rightarrow> string \<Rightarrow> 'r option) \<Rightarrow> string \<Rightarrow> 'r option" where
  "rx_plus P k s =
     backtrack (\<lambda>i. if i = 0 then None else k i (drop i s)) (length (takeWhile P s))"

definition rx_chr :: "char \<Rightarrow> (string \<Rightarrow> 'r option) \<Rightarrow> string \<Rightarrow> 'r option" where
  "rx_chr c k s = (case s of [] \<Rightarrow> None | x # xs \<Rightarrow> if x = c then k xs else None)"

definition rx_dot :: "(string \<Rightarrow> 'r option) \<Rightarrow> string \<Rightarrow> 'r option" where
  "rx_dot k s = (case s of [] \<Rightarrow> None | x # xs \<Rightarrow> if is_line_terminator x then None else k xs)"

definition eol :: "string \<Rightarrow> bool" where
  "eol s \<longleftrightarrow> (case s of [] \<Rightarrow> True | x # xs \<Rightarrow> is_line_terminator x)"

text \<open>
  \<^verbatim>\<open>String.prototype.replace\<close> with a pattern without the flag \<open>g\<close>: the input is scanned
  from the left for the first position where the pattern matches, and that match alone is
  removed (the replacement is the empty string in every use of the source). The matcher
  \<open>m\<close> gets the flag \<open>bol\<close> and the remaining input and returns the length of its match.
\<close>

fun replace_first :: "(bool \<Rightarrow> string \<Rightarrow> nat option) \<Rightarrow> bool \<Rightarrow> string \<Rightarrow> string" where
  "replace_first m bol [] = []"
| "replace_first m bol (c # cs) =
     (case m bol (c # cs) of
        Some n \<Rightarrow> drop n (c # cs)
      | None \<Rightarrow> c # replace_first m (is_line_terminator c) cs)"

text \<open>
  \<^verbatim>\<open>String.prototype.replaceAll\<close> with a pattern with the flag \<open>g\<close> and the empty
  replacement: after a non-empty match the scan goes on behind the match; where the
  pattern does not match, or matches the empty string, the character is kept and the scan
  goes on one position further.
\<close>

function replace_all :: "(bool \<Rightarrow> string \<Rightarrow> nat option) \<Rightarrow> bool \<Rightarrow> string \<Rightarrow> string" where
  "replace_all m bol [] = []"
| "replace_all m bol (c # cs) =
     (case m bol (c # cs) of
        None \<Rightarrow> c # replace_all m (is_line_terminator c) cs
      | Some 0 \<Rightarrow> c # replace_all m (is_line_terminator c) cs
      | Some (Suc n) \<Rightarrow>
          replace_all m (is_line_terminator (last (take (Suc n) (c # cs)))) (drop n cs))"
  by pat_completeness auto
termination
  by (relation "measure (\<lambda>(m, bol, s). length s)") auto

declare replace_all.simps [simp del]

section \<open>Transcription: cleaning a response\<close>

text \<open>
  \<^verbatim>\<open>rawText.replace(/^\s*\d+\s*$\n+/m, '').replaceAll(/^\s*/gm, '').replaceAll(/\s*$/gm, '')\<close>
  (transcribe-book-content.ts, the per-image loop). Each pattern is a matcher, in the
  order of the source.
\<close>

definition match_number_line :: "bool \<Rightarrow> string \<Rightarrow> nat option" where
  "match_number_line bol s =
     (if \<not> bol then None
      else rx_star is_space (\<lambda>a s1.
             rx_plus is_digit (\<lambda>d s2.
               rx_star is_space (\<lambda>w s3.
                 if eol s3 then rx_plus (is_char LF) (\<lambda>j s4. Some (a + d + w + j)) s3
                 else None) s2) s1) s)"

definition match_leading_space :: "bool \<Rightarrow> string \<Rightarrow> nat option" where
  "match_leading_space bol s = (if \<not> bol then None else rx_star is_space (\<lambda>a s1. Some a) s)"

definition match_trailing_space :: "bool \<Rightarrow> string \<Rightarrow> nat option" where
  "match_trailing_space bol s = rx_star is_space (\<lambda>a s1. if eol s1 then Some a else None) s"

definition strip_page_number :: "string \<Rightarrow> string" where
  "strip_page_number rawText = replace_first match_number_line True rawText"

definition clean :: "string \<Rightarrow> string" where
  "clean rawText =
     replace_all match_trailing_space True
       (replace_all match_leading_space True (strip_page_number rawText))"

section \<open>File names of the page images\<close>





text \<open>
  The transcription script reads both numbers back from the path with
  \<^verbatim>\<open>screenshot.match(/0*(\d+)-\0*(\d+).png/)\<close>; \<open>\0\<close> is the character NUL. The match
  is looked for at every position from the left, and the two groups of the first match are
  read with \<^verbatim>\<open>Number.parseInt(_, 10)\<close>. Without a match the assertion
  \<^verbatim>\<open>invalid screenshot filename\<close> fails, which is the result \<open>None\<close>.
\<close>

definition match_metadata :: "string \<Rightarrow> (string \<times> string) option" where
  "match_metadata s =
     rx_star (is_char CHR ''0'') (\<lambda>z s1.
       rx_plus is_digit (\<lambda>d s2.
         rx_chr CHR ''-'' (
           rx_star (is_char CHR 0x00) (\<lambda>n s3.
             rx_plus is_digit (\<lambda>e s4.
               rx_dot (rx_chr CHR ''p'' (rx_chr CHR ''n'' (rx_chr CHR ''g''
                 (\<lambda>s5. Some (take d s1, take e s3))))) s4) s3)) s2) s1) s"

fun metadataMatch :: "string \<Rightarrow> (string \<times> string) option" where
  "metadataMatch [] = match_metadata []"
| "metadataMatch (c # cs) =
     (case match_metadata (c # cs) of Some g \<Rightarrow> Some g | None \<Rightarrow> metadataMatch cs)"

definition parse_screenshot :: "string \<Rightarrow> (int \<times> int) option" where
  "parse_screenshot screenshot =
     (case metadataMatch screenshot of
        None \<Rightarrow> None
      | Some (g1, g2) \<Rightarrow> Some (int (parse_digits g1), int (parse_digits g2)))"

text \<open>
  Vocabulary of the statements about cleaning. \<open>split_lines\<close> cuts a text at its line
  terminators. \<open>lead_ok bol s\<close> says that no white space stands at the start of a line of
  \<open>s\<close> (\<open>bol\<close> tells whether \<open>s\<close> begins at the start of a line), \<open>trail_ok s\<close> that no
  white space stands right before a line terminator or at the end of \<open>s\<close>. A bare number
  line is a line of digits with optional white space around them.
\<close>

fun split_lines :: "string \<Rightarrow> string list" where
  "split_lines [] = [[]]"
| "split_lines (c # cs) =
     (if is_line_terminator c then [] # split_lines cs
      else (case split_lines cs of [] \<Rightarrow> [[c]] | l # ls \<Rightarrow> (c # l) # ls))"


fun trail_ok :: "string \<Rightarrow> bool" where
  "trail_ok [] = True"
| "trail_ok [c] = (\<not> is_space c)"
| "trail_ok (c # d # cs) = ((is_line_terminator d \<longrightarrow> \<not> is_space c) \<and> trail_ok (d # cs))"



section \<open>Transcription: the per-image loop\<close>

text \<open>
  The refusal test \<^verbatim>\<open>text.length < 100 && /i'm sorry/i.test(text)\<close>. With the flag \<open>i\<close> a
  character of the text matches a letter of the pattern when it is that letter in lower or
  upper case; the pattern may match at any position.
\<close>

definition ci_char :: "char \<Rightarrow> char \<Rightarrow> bool" where
  "ci_char p c \<longleftrightarrow>
     c = p \<or> ((97::nat) \<le> of_char p \<and> of_char p \<le> (122::nat) \<and> of_char c + (32::nat) = of_char p)"

fun ci_prefix :: "string \<Rightarrow> string \<Rightarrow> bool" where
  "ci_prefix [] s = True"
| "ci_prefix (p # ps) [] = False"
| "ci_prefix (p # ps) (c # cs) = (ci_char p c \<and> ci_prefix ps cs)"

fun ci_search :: "string \<Rightarrow> string \<Rightarrow> bool" where
  "ci_search pat [] = ci_prefix pat []"
| "ci_search pat (c # cs) = (ci_prefix pat (c # cs) \<or> ci_search pat cs)"

definition is_refusal :: "string \<Rightarrow> bool" where
  "is_refusal text \<longleftrightarrow> length text < 100 \<and> ci_search (''i'' @ [CHR 0x27] @ ''m sorry'') text"

text \<open>
  The recognition service is outside the program. A call either returns the text of the
  first choice or throws (the request is rejected, or the response has no text, on which
  \<^verbatim>\<open>rawText.replace\<close> throws); both are caught by the \<^verbatim>\<open>catch\<close> around the loop. The
  request of a call depends on the number of calls made before:
  \<^verbatim>\<open>temperature: retries < 2 ? 0 : 0.5\<close>, and the sentence about legal documents is
  added to the prompt when \<^verbatim>\<open>retries > 2\<close>. The service of an image is a function from
  the number of earlier calls and the request to the response.
\<close>

datatype response = Text string | Throws

record request =
  req_temperature_zero :: bool
  req_legal_sentence :: bool

definition request_of :: "nat \<Rightarrow> request" where
  "request_of retries = \<lparr>req_temperature_zero = (retries < 2), req_legal_sentence = (2 < retries)\<rparr>"

type_synonym service = "nat \<Rightarrow> request \<Rightarrow> response"

text \<open>
  The loop \<^verbatim>\<open>do { ... } while (true)\<close> for one image. It may run forever, so it is a
  partial function: \<open>None\<close> says that it never returns. A returned value is the outcome (the
  chunk, or \<open>Failed\<close> for the \<^verbatim>\<open>catch\<close> branch, which logs the error and returns
  \<^verbatim>\<open>undefined\<close>) with the number of calls made to the service and the delays waited, in
  milliseconds. \<open>maxRetries\<close> is \<^verbatim>\<open>Number(process.env.OCR_MAX_RETRIES ?? '30')\<close>, taken
  as an integer.
\<close>

datatype outcome = Chunk content_chunk | Failed

partial_function (option) ocr_loop ::
  "int \<Rightarrow> service \<Rightarrow> int \<Rightarrow> int \<Rightarrow> string \<Rightarrow> nat \<Rightarrow> nat list \<Rightarrow> (outcome \<times> nat \<times> nat list) option"
where
  "ocr_loop maxRetries svc index page screenshot retries delays =
     (case svc retries (request_of retries) of
        Throws \<Rightarrow> Some (Failed, Suc retries, delays)
      | Text rawText \<Rightarrow>
          (let text = clean rawText;
               retries' = Suc retries
           in if text = [] then ocr_loop maxRetries svc index page screenshot retries' delays
              else if is_refusal text then
                (if maxRetries \<le> int retries' then Some (Failed, retries', delays)
                 else ocr_loop maxRetries svc index page screenshot retries'
                        (delays @ [min (500 * retries') 5000]))
              else Some (Chunk \<lparr>c_index = index, c_page = page, c_text = text,
                                 c_screenshot = screenshot\<rparr>, retries', delays)))"

declare ocr_loop.simps [code]

text \<open>
  One image: its path and its service. The file name is parsed before the
  \<^verbatim>\<open>try\<close>, so a path that does not match rejects the whole \<^verbatim>\<open>Promise.all\<close>; this is
  the outer \<open>None\<close> of \<open>image_result\<close>.
\<close>

record image =
  img_path :: string
  img_service :: service

definition image_result :: "int \<Rightarrow> image \<Rightarrow> (outcome \<times> nat \<times> nat list) option option" where
  "image_result maxRetries img =
     (case parse_screenshot (img_path img) of
        None \<Rightarrow> None
      | Some (index, page) \<Rightarrow>
          Some (ocr_loop maxRetries (img_service img) index page (img_path img) 0 []))"

text \<open>
  The whole run over the page images: rejected (no image, or a path that does not parse),
  never finished (some loop runs forever, so \<^verbatim>\<open>Promise.all\<close> never settles), or
  \<open>content.json\<close> written with the chunks that \<^verbatim>\<open>.filter(Boolean)\<close> keeps, sorted by index
  and page.
\<close>

datatype run = Rejected | Pending | Written "content_chunk list"

fun chunks_of :: "(outcome \<times> nat \<times> nat list) option option list \<Rightarrow> content_chunk list" where
  "chunks_of [] = []"
| "chunks_of (Some (Some (Chunk c, n, ds)) # rs) = c # chunks_of rs"
| "chunks_of (r # rs) = chunks_of rs"

definition transcribe_all :: "int \<Rightarrow> image list \<Rightarrow> run" where
  "transcribe_all maxRetries pageScreenshots =
     (if pageScreenshots = [] then Rejected
      else let rs = map (image_result maxRetries) pageScreenshots
           in if None \<in> set rs then Rejected
              else if Some None \<in> set rs then Pending
              else Written (contentSorted (chunks_of rs)))"

text \<open>Example services: one that answers every call with the empty text, one that refuses every call, and one that refuses, answers with the empty text and then with a text.\<close>

definition always_empty :: service where
  "always_empty k req = Text []"

definition always_refuses :: service where
  "always_refuses k req = Text (''I'' @ [CHR 0x27] @ ''m sorry, I can'' @ [CHR 0x27] @ ''t assist with that.'')"

definition refuses_empty_then_text :: service where
  "refuses_empty_then_text k req =
     (if k = 0 then Text (''I'' @ [CHR 0x27] @ ''m sorry.'')
      else if k = 1 then Text [] else Text ''Chapter one'')"

definition refusing_image :: image where
  "refusing_image = \<lparr>img_path = ''out/b/pages/01-02.png'', img_service = always_refuses\<rparr>"

definition good_image :: image where
  "good_image = \<lparr>img_path = ''out/b/pages/00-01.png'', img_service = refuses_empty_then_text\<rparr>"

section \<open>Capture: the loop over the pages\<close>

text \<open>
  The viewer is outside the program. The loop talks to it through the calls below, and what
  a call returns may depend on everything done before, so the viewer is modelled as
  functions of the history of calls: the page state read by \<open>getBrState\<close>, whether
  \<open>waitForPageStable\<close> and \<open>getCaptureTarget\<close> succeed, and the bytes of a screenshot. A
  call that throws where the source has no \<^verbatim>\<open>try\<close> aborts the run. \<open>sha1\<close> is the hash
  of \<^verbatim>\<open>crypto.createHash('sha1')\<close>, a parameter of the model.
\<close>

datatype event =
    GetBrState
  | NativeNext
  | ClickNext
  | KeyRight
  | WaitStable
  | Borrow
  | GetCaptureTarget
  | Screenshot
  | ClickNextBrief
  | WriteFile string

record viewer =
  observe :: "event list \<Rightarrow> viewer_dom option"
  stable :: "event list \<Rightarrow> bool"
  target :: "event list \<Rightarrow> bool"
  shot :: "event list \<Rightarrow> string option"
  sha1 :: "string \<Rightarrow> string"








text \<open>\<open>PageChunk\<close> of types.ts, the configuration of the loop, and its variables.\<close>

record page_chunk =
  pc_index :: nat
  pc_page :: int
  pc_total :: int
  pc_screenshot :: string


record capture_state =
  hist :: "event list"
  lastSig :: string
  lastPageNum :: int
  lastHash :: string
  pages :: "page_chunk list"















section \<open>Properties\<close>

lemma fold_newlines_no_LF: "LF \<notin> set (fold_newlines s)"
  by (induction s) (auto simp: fold_newlines_def LF_def SP_def)

lemma trim_subset: "set (trim s) \<subseteq> set s"
  by (auto simp: trim_def dest!: set_dropWhileD)

lemma normalize_chunk_text_no_LF: "LF \<notin> set (normalize_chunk_text s)"
  using trim_subset fold_newlines_no_LF unfolding normalize_chunk_text_def by blast

text \<open>
  Claim C1. The spec's example for the paragraph-fold rule is the chunk text
  \<open>line one\nline two\n\nline three\<close>, expected to become
  \<open>line one line two\n\nline three\<close>. On that input the source returns
  \<open>line one line two  line three\<close>: the third call replaces every LF, also the two that
  the second call has just kept as the paragraph break, so the break comes out as two
  spaces.
\<close>

theorem normalize_chunk_text_example:
  "normalize_chunk_text (''line one'' @ [LF] @ ''line two'' @ [LF, LF] @ ''line three'')
     = ''line one line two  line three''"
  by (simp add: normalize_chunk_text_def strip_cr_def fold_newlines_def trim_def
      is_space_def LF_def CR_def SP_def)

lemma getBrState_page_Some: "dom_pageNum d \<noteq> None \<Longrightarrow> \<exists>p. br_page (getBrState d) = Some p"
  by (cases "dom_pageNum d") (simp_all add: getBrState_def)

lemma getBrState_sig_nonempty: "br_sig (getBrState d) \<noteq> []"
  by (simp add: getBrState_def)

lemma stale_iff_page_or_sig_same:
  assumes "dom_pageNum prv \<noteq> None" and "dom_pageNum cur \<noteq> None"
  shows "stale (next_lastSig sig0 (getBrState prv)) (pageNum_of i (getBrState prv))
           (getBrState cur)
         \<longleftrightarrow> br_sig (getBrState cur) = br_sig (getBrState prv)
              \<or> br_page (getBrState cur) = br_page (getBrState prv)"
proof -
  obtain p where p: "br_page (getBrState prv) = Some p"
    using getBrState_page_Some [OF assms(1)] by blast
  obtain q where q: "br_page (getBrState cur) = Some q"
    using getBrState_page_Some [OF assms(2)] by blast
  show ?thesis
    by (simp add: stale_def next_lastSig_def pageNum_of_def page_or_minus1_def p q
        getBrState_sig_nonempty)
qed




lemma findIndex_None: "findIndex P xs = None \<longleftrightarrow> (\<forall>x \<in> set xs. \<not> P x)"
  by (induction xs) auto

lemma findIndex_Some:
  "findIndex P xs = Some k \<Longrightarrow> k < length xs \<and> P (xs ! k) \<and> (\<forall>j<k. \<not> P (xs ! j))"
proof (induction xs arbitrary: k)
  case Nil
  then show ?case by simp
next
  case (Cons x xs)
  show ?case
  proof (cases "P x")
    case True
    with Cons.prems show ?thesis by simp
  next
    case False
    with Cons.prems obtain k' where k': "findIndex P xs = Some k'" "k = Suc k'"
      by auto
    from Cons.IH [OF k'(1)] False k'(2) show ?thesis
      by (auto simp: nth_Cons split: nat.splits)
  qed
qed

lemma findIndex_first_boundary:
  "first_boundary p cs (case findIndex (\<lambda>c. p \<le> c_page c) cs of None \<Rightarrow> length cs | Some k \<Rightarrow> k)"
proof (cases "findIndex (\<lambda>c. p \<le> c_page c) cs")
  case None
  then have "\<forall>x \<in> set cs. \<not> p \<le> c_page x"
    by (simp add: findIndex_None)
  then have "\<forall>j<length cs. c_page (cs ! j) < p"
    by (auto simp: not_le)
  with None show ?thesis
    by (simp add: first_boundary_def)
next
  case (Some k)
  from findIndex_Some [OF Some] Some show ?thesis
    by (auto simp: first_boundary_def not_le)
qed

lemma first_boundary_unique: "first_boundary p cs k \<Longrightarrow> first_boundary p cs k' \<Longrightarrow> k = k'"
  unfolding first_boundary_def
  by (metis linorder_neqE_nat not_le order.strict_trans2)

lemma computeNextIndex_bounds:
  assumes "cur \<le> length cs"
  shows "cur \<le> computeNextIndex toc cs cur i" and "computeNextIndex toc cs cur i \<le> length cs"
proof -
  have fb: "\<And>p. (case findIndex (\<lambda>c. p \<le> c_page c) cs of None \<Rightarrow> length cs | Some k \<Rightarrow> k) \<le> length cs"
    using findIndex_first_boundary by (simp add: first_boundary_def)
  show "cur \<le> computeNextIndex toc cs cur i"
    using assms by (simp add: computeNextIndex_def Let_def split: option.split)
  show "computeNextIndex toc cs cur i \<le> length cs"
    using assms fb by (simp add: computeNextIndex_def Let_def split: option.split)
qed

lemma sections_loop_cursor:
  "index \<le> length cs \<Longrightarrow>
     sorted (index # cursor_values (sections_loop toc cs i index))
     \<and> (\<forall>b \<in> set (cursor_values (sections_loop toc cs i index)). b \<le> length cs)"
proof (induction toc cs i index rule: sections_loop.induct)
  case (1 toc cs i index)
  show ?case
  proof (cases "i + 1 < length toc")
    case False
    then have "sections_loop toc cs i index = []"
      by (subst sections_loop.simps) simp
    then show ?thesis by (simp add: cursor_values_def)
  next
    case True
    show ?thesis
    proof (cases "toc_page (toc ! i)")
      case None
      have "sections_loop toc cs i index = sections_loop toc cs (i + 1) index"
        using True None by (subst sections_loop.simps) simp
      with True None "1.IH"(1) "1.prems" show ?thesis by simp
    next
      case (Some a)
      let ?n = "computeNextIndex toc cs index i"
      have n: "index \<le> ?n" "?n \<le> length cs"
        using computeNextIndex_bounds [OF "1.prems"] by blast+
      have ih: "sorted (?n # cursor_values (sections_loop toc cs (i + 1) ?n))
        \<and> (\<forall>b \<in> set (cursor_values (sections_loop toc cs (i + 1) ?n)). b \<le> length cs)"
        using "1.IH"(2) [OF True Some refl refl refl n(2)] .
      have unfold: "cursor_values (sections_loop toc cs i index)
          = index # ?n # cursor_values (sections_loop toc cs (i + 1) ?n)"
        using True Some by (subst sections_loop.simps) (simp add: cursor_values_def Let_def)
      show ?thesis
        unfolding unfold using ih n by auto
    qed
  qed
qed

text \<open>
  Claim C4. For a current cursor \<open>cur\<close> and a table-of-contents entry \<open>i\<close>: when the
  following entry exists and has a page number \<open>p\<close>, the boundary is the index of the
  first chunk whose page number is at least \<open>p\<close> (the length of the chunk list when
  there is none), raised to \<open>cur\<close> when it lies before it; when there is no following
  entry or it has no page number, the boundary is the length of the chunk list. The
  boundary is never before a cursor within the list, and the values the cursor takes
  during the loop never decrease, whatever the page numbers of the table of contents.
\<close>

theorem computeNextIndex_boundary:
  "(case (if i + 1 < length toc then toc_page (toc ! (i + 1)) else None) of
      None \<Rightarrow> computeNextIndex toc cs cur i = length cs
    | Some p \<Rightarrow> \<exists>k. first_boundary p cs k \<and> computeNextIndex toc cs cur i = max cur k)
   \<and> (cur \<le> length cs \<longrightarrow> cur \<le> computeNextIndex toc cs cur i)
   \<and> sorted (cursor_values (sections_loop toc cs 0 0))"
proof (intro conjI impI)
  show "case (if i + 1 < length toc then toc_page (toc ! (i + 1)) else None) of
      None \<Rightarrow> computeNextIndex toc cs cur i = length cs
    | Some p \<Rightarrow> \<exists>k. first_boundary p cs k \<and> computeNextIndex toc cs cur i = max cur k"
  proof (cases "if i + 1 < length toc then toc_page (toc ! (i + 1)) else None")
    case None
    then show ?thesis
      by (auto simp: computeNextIndex_def split: if_splits)
  next
    case (Some p)
    let ?k = "case findIndex (\<lambda>c. p \<le> c_page c) cs of None \<Rightarrow> length cs | Some k \<Rightarrow> k"
    from Some have "computeNextIndex toc cs cur i = max cur ?k"
      by (auto simp: computeNextIndex_def Let_def max_def split: if_splits)
    with findIndex_first_boundary [of p cs] Some show ?thesis
      by auto
  qed
next
  assume "cur \<le> length cs"
  then show "cur \<le> computeNextIndex toc cs cur i"
    by (rule computeNextIndex_bounds)
next
  from sections_loop_cursor [of 0 cs toc 0] show "sorted (cursor_values (sections_loop toc cs 0 0))"
    by simp
qed

theorem computeNextIndex_boundary_witness:
  "(3::nat) \<le> length example_chunks
   \<and> first_boundary 2 example_chunks 1
   \<and> computeNextIndex example_toc example_chunks 3 1 = 3
   \<and> cursor_values (sections_loop example_toc example_chunks 0 0) = [0, 3, 3, 3, 3, 5]"
proof -
  have len: "(3::nat) \<le> length example_chunks"
    by (simp add: example_chunks_def)
  have fb: "first_boundary 2 example_chunks 1"
    by (simp add: first_boundary_def example_chunks_def chunk_at_def)
  have "\<exists>k. first_boundary 2 example_chunks k
          \<and> computeNextIndex example_toc example_chunks 3 1 = max 3 k"
    using computeNextIndex_boundary [where i = 1 and toc = example_toc and cs = example_chunks
        and cur = 3]
    by (simp add: example_toc_def)
  then obtain k where k: "first_boundary 2 example_chunks k"
    "computeNextIndex example_toc example_chunks 3 1 = max 3 k"
    by blast
  from first_boundary_unique [OF k(1) fb] k(2)
  have c: "computeNextIndex example_toc example_chunks 3 1 = 3"
    by simp
  have "cursor_values (sections_loop example_toc example_chunks 0 0) = [0, 3, 3, 3, 3, 5]"
    by code_simp
  with len fb c show ?thesis
    by blast
qed

text \<open>
  Claim C6. Without usable metadata the assembler synthesizes the entries \<open>Content\<close> and
  \<open>End\<close>, and the page number of \<open>End\<close> is the largest page number of the chunks.
  \<open>computeNextIndex\<close> cuts the section at the first chunk whose page number is at least
  that of \<open>End\<close>, so the chunks of the last page are not part of \<open>Content\<close>: of three
  chunks with the page numbers 1, 2, 3 the section holds the first two.
\<close>

theorem assemble_synthesized_toc_example:
  "usable None = False
   \<and> map_option (map (\<lambda>s. (sec_title s, sec_chunks s)))
       (assemble None [chunk_at 0 1, chunk_at 1 2, chunk_at 2 3])
     = Some [(''Content'', [chunk_at 0 1, chunk_at 1 2])]"
  by code_simp

subsection \<open>Regular expressions and file names\<close>












subsection \<open>Decimal notation\<close>










subsection \<open>Shape of a match of the file-name pattern\<close>












subsection \<open>Cleaning a response\<close>




lemma trail_ok_Cons: "\<not> is_line_terminator (hd s) \<Longrightarrow> s \<noteq> [] \<Longrightarrow> trail_ok s \<Longrightarrow> trail_ok (c # s)"
  by (cases s) simp_all


subsection \<open>The matchers of the two global replacements\<close>









lemma match_trailing_space_bol: "match_trailing_space b s = match_trailing_space b' s"
  by (simp add: match_trailing_space_def)







subsection \<open>Lines of a text without white space at line starts and ends\<close>

lemma split_lines_nonempty: "split_lines s \<noteq> []"
  by (induction s) (auto split: list.splits)



subsection \<open>The match of the pattern for a bare number line\<close>




















subsection \<open>The per-image loop\<close>

lemma clean_Nil: "clean [] = []"
  by (simp add: clean_def strip_page_number_def replace_all.simps)

lemma ocr_loop_always_empty_aux:
  assumes "ocr_loop maxRetries svc index page screenshot retries delays = Some y"
  shows "svc \<noteq> always_empty"
proof (rule ocr_loop.raw_induct
    [where P = "\<lambda>maxRetries svc index page screenshot retries delays y. svc \<noteq> always_empty",
      OF _ assms])
  fix f :: "int \<Rightarrow> service \<Rightarrow> int \<Rightarrow> int \<Rightarrow> string \<Rightarrow> nat \<Rightarrow> nat list
      \<Rightarrow> (outcome \<times> nat \<times> nat list) option"
  fix maxRetries svc index page screenshot retries delays y
  assume ih: "\<And>maxRetries svc index page screenshot retries delays y.
      f maxRetries svc index page screenshot retries delays = Some y \<Longrightarrow> svc \<noteq> always_empty"
  assume body: "(case svc retries (request_of retries) of
        Throws \<Rightarrow> Some (Failed, Suc retries, delays)
      | Text rawText \<Rightarrow>
          (let text = clean rawText;
               retries' = Suc retries
           in if text = [] then f maxRetries svc index page screenshot retries' delays
              else if is_refusal text then
                (if maxRetries \<le> int retries' then Some (Failed, retries', delays)
                 else f maxRetries svc index page screenshot retries'
                        (delays @ [min (500 * retries') 5000]))
              else Some (Chunk \<lparr>c_index = index, c_page = page, c_text = text,
                                 c_screenshot = screenshot\<rparr>, retries', delays))) = Some y"
  show "svc \<noteq> always_empty"
  proof
    assume "svc = always_empty"
    with body have "f maxRetries always_empty index page screenshot (Suc retries) delays = Some y"
      by (simp add: always_empty_def clean_Nil)
    from ih [OF this] show False by simp
  qed
qed

lemma ocr_loop_always_empty:
  "ocr_loop maxRetries always_empty index page screenshot retries delays = None"
  using ocr_loop_always_empty_aux [of maxRetries always_empty index page screenshot retries delays]
  by (cases "ocr_loop maxRetries always_empty index page screenshot retries delays") auto

lemma ci_prefix_nonempty: "ci_prefix (p # ps) s \<Longrightarrow> s \<noteq> []"
  by (cases s) simp_all

lemma ci_search_nonempty: "ci_search (p # ps) s \<Longrightarrow> s \<noteq> []"
  by (cases s) simp_all

lemma is_refusal_nonempty: "is_refusal text \<Longrightarrow> text \<noteq> []"
  by (auto simp: is_refusal_def dest: ci_search_nonempty)

text \<open>Backoff of the source: \<^verbatim>\<open>Math.min(500 * retries, 5000)\<close> after the attempt \<open>retries\<close>.\<close>

lemma ocr_loop_permanent_refusal:
  assumes "\<And>k req. \<exists>raw. svc k req = Text raw \<and> is_refusal (clean raw)"
  shows "ocr_loop maxRetries svc index page screenshot retries delays
     = Some (Failed, max (Suc retries) (nat maxRetries),
         delays @ map (\<lambda>k. min (500 * k) 5000) [Suc retries ..< max (Suc retries) (nat maxRetries)])"
proof (induction "nat maxRetries - Suc retries" arbitrary: retries delays)
  case 0
  then have le: "maxRetries \<le> int (Suc retries)" by linarith
  then have m: "max (Suc retries) (nat maxRetries) = Suc retries" by linarith
  from assms obtain raw where raw: "svc retries (request_of retries) = Text raw"
    "is_refusal (clean raw)" by blast
  from raw le show ?case
    unfolding m
    by (subst ocr_loop.simps) (simp add: is_refusal_nonempty Let_def)
next
  case (Suc n)
  then have gt: "\<not> maxRetries \<le> int (Suc retries)" by linarith
  then have m: "max (Suc retries) (nat maxRetries) = nat maxRetries"
    and m': "max (Suc (Suc retries)) (nat maxRetries) = nat maxRetries"
    and lt: "Suc retries < nat maxRetries"
    by linarith+
  from assms obtain raw where raw: "svc retries (request_of retries) = Text raw"
    "is_refusal (clean raw)" by blast
  have n: "n = nat maxRetries - Suc (Suc retries)"
    using Suc.hyps(2) by linarith
  have step: "ocr_loop maxRetries svc index page screenshot retries delays
      = ocr_loop maxRetries svc index page screenshot (Suc retries)
          (delays @ [min (500 * Suc retries) 5000])"
    using raw gt by (subst ocr_loop.simps) (simp add: is_refusal_nonempty Let_def)
  have upt: "[Suc retries ..< nat maxRetries] = Suc retries # [Suc (Suc retries) ..< nat maxRetries]"
    using lt by (rule upt_conv_Cons)
  show ?case
    unfolding step Suc.hyps(1) [OF n] m m' upt by simp
qed

lemma ocr_loop_chunk_text:
  assumes "ocr_loop maxRetries svc index page screenshot retries delays = Some (Chunk c, n, ds)"
  shows "c_text c \<noteq> []"
proof -
  have "\<forall>c n ds. y = (Chunk c, n, ds) \<longrightarrow> c_text c \<noteq> []"
    if "ocr_loop maxRetries svc index page screenshot retries delays = Some y" for y
  proof (rule ocr_loop.raw_induct
      [where P = "\<lambda>maxRetries svc index page screenshot retries delays y.
          \<forall>c n ds. y = (Chunk c, n, ds) \<longrightarrow> c_text c \<noteq> []", OF _ that])
    fix f :: "int \<Rightarrow> service \<Rightarrow> int \<Rightarrow> int \<Rightarrow> string \<Rightarrow> nat \<Rightarrow> nat list
        \<Rightarrow> (outcome \<times> nat \<times> nat list) option"
    fix maxRetries svc index page screenshot retries delays y
    assume ih: "\<And>maxRetries svc index page screenshot retries delays y.
        f maxRetries svc index page screenshot retries delays = Some y
        \<Longrightarrow> \<forall>c n ds. y = (Chunk c, n, ds) \<longrightarrow> c_text c \<noteq> []"
    assume body: "(case svc retries (request_of retries) of
          Throws \<Rightarrow> Some (Failed, Suc retries, delays)
        | Text rawText \<Rightarrow>
            (let text = clean rawText;
                 retries' = Suc retries
             in if text = [] then f maxRetries svc index page screenshot retries' delays
                else if is_refusal text then
                  (if maxRetries \<le> int retries' then Some (Failed, retries', delays)
                   else f maxRetries svc index page screenshot retries'
                          (delays @ [min (500 * retries') 5000]))
                else Some (Chunk \<lparr>c_index = index, c_page = page, c_text = text,
                                   c_screenshot = screenshot\<rparr>, retries', delays))) = Some y"
    show "\<forall>c n ds. y = (Chunk c, n, ds) \<longrightarrow> c_text c \<noteq> []"
    proof (cases "svc retries (request_of retries)")
      case Throws
      with body show ?thesis by auto
    next
      case (Text rawText)
      show ?thesis
      proof (cases "clean rawText = []")
        case True
        with body Text ih show ?thesis by (simp add: Let_def)
      next
        case False
        with body Text ih show ?thesis
          by (cases "is_refusal (clean rawText)"; cases "maxRetries \<le> int (Suc retries)")
            (auto simp: Let_def)
      qed
    qed
  qed
  with assms show ?thesis by blast
qed

lemma chunks_of_append: "chunks_of (rs @ rs') = chunks_of rs @ chunks_of rs'"
  by (induction rs rule: chunks_of.induct) simp_all

lemma chunks_of_member:
  "c \<in> set (chunks_of rs) \<Longrightarrow> \<exists>n ds. Some (Some (Chunk c, n, ds)) \<in> set rs"
  by (induction rs rule: chunks_of.induct) auto

lemma image_result_chunk_text:
  assumes "image_result maxRetries img = Some (Some (Chunk c, n, ds))"
  shows "c_text c \<noteq> []"
proof -
  from assms obtain index page where
    "ocr_loop maxRetries (img_service img) index page (img_path img) 0 [] = Some (Chunk c, n, ds)"
    by (auto simp: image_result_def split: option.splits)
  then show ?thesis by (rule ocr_loop_chunk_text)
qed

lemma transcribe_all_chunk_text:
  assumes "transcribe_all maxRetries imgs = Written cs" and "c \<in> set cs"
  shows "c_text c \<noteq> []"
proof -
  from assms(1) have "cs = contentSorted (chunks_of (map (image_result maxRetries) imgs))"
    by (auto simp: transcribe_all_def Let_def split: if_splits)
  with assms(2) have "c \<in> set (chunks_of (map (image_result maxRetries) imgs))"
    by (simp add: contentSorted_def)
  then obtain n ds where "Some (Some (Chunk c, n, ds)) \<in> set (map (image_result maxRetries) imgs)"
    by (blast dest: chunks_of_member)
  then obtain img where "image_result maxRetries img = Some (Some (Chunk c, n, ds))"
    by auto
  then show ?thesis by (rule image_result_chunk_text)
qed

lemma transcribe_all_drop_failed:
  assumes "image_result maxRetries x = Some (Some (Failed, n, ds))" and "xs @ ys \<noteq> []"
  shows "transcribe_all maxRetries (xs @ x # ys) = transcribe_all maxRetries (xs @ ys)"
proof -
  let ?r = "image_result maxRetries"
  have "chunks_of (map ?r (xs @ x # ys)) = chunks_of (map ?r (xs @ ys))"
    using assms(1) by (simp add: chunks_of_append)
  moreover have "None \<in> set (map ?r (xs @ x # ys)) \<longleftrightarrow> None \<in> set (map ?r (xs @ ys))"
    and "Some None \<in> set (map ?r (xs @ x # ys)) \<longleftrightarrow> Some None \<in> set (map ?r (xs @ ys))"
    using assms(1) by auto
  ultimately show ?thesis
    using assms(2) unfolding transcribe_all_def Let_def by simp
qed

text \<open>
  Claim C2. The bound \<open>maxRetries\<close> is tested only in the refusal branch. A response whose
  cleaned text is empty takes \<^verbatim>\<open>if (!text) continue\<close> before the test, so a service that
  answers every call with an empty text keeps the loop running forever, whatever the bound
  is; and with the bound 2, a refusal, an empty text and then a text give a chunk at the
  third call.
\<close>

theorem ocr_loop_empty_responses:
  "ocr_loop maxRetries always_empty index page screenshot 0 [] = None
   \<and> ocr_loop 2 refuses_empty_then_text 0 1 ''out/b/pages/00-01.png'' 0 []
     = Some (Chunk \<lparr>c_index = 0, c_page = 1, c_text = ''Chapter one'',
                    c_screenshot = ''out/b/pages/00-01.png''\<rparr>, 3, [500])"
proof
  show "ocr_loop maxRetries always_empty index page screenshot 0 [] = None"
    by (rule ocr_loop_always_empty)
  show "ocr_loop 2 refuses_empty_then_text 0 1 ''out/b/pages/00-01.png'' 0 []
     = Some (Chunk \<lparr>c_index = 0, c_page = 1, c_text = ''Chapter one'',
                    c_screenshot = ''out/b/pages/00-01.png''\<rparr>, 3, [500])"
    by code_simp
qed

text \<open>
  Claim C5, as stated: at most \<open>R\<close> calls for the bound \<open>R\<close>. The loop is a
  \<^verbatim>\<open>do ... while\<close>: the call is made before the bound is tested, so with the bound 0 a
  refusing service is called once.
\<close>

theorem permanent_refusal_zero_bound_counterexample:
  "ocr_loop 0 always_refuses 0 1 ''out/b/pages/00-01.png'' 0 [] = Some (Failed, 1, [])
   \<and> \<not> int 1 \<le> 0"
  by code_simp

text \<open>
  Claim C5, amended: with the bound \<open>R\<close> and a service that answers every call for an image
  with a refusal, the loop of that image makes \<open>max 1 R\<close> calls, waits
  \<open>min (500 \<times> k) 5000\<close> milliseconds after the call \<open>k\<close> for every call but the last, and
  fails; the image is left out of \<open>content.json\<close>, which is what it would be without that
  image, and no chunk of \<open>content.json\<close> has an empty text.
\<close>

theorem permanent_refusal_excluded:
  assumes refuses: "\<forall>k req. \<exists>raw. img_service x k req = Text raw \<and> is_refusal (clean raw)"
    and name: "parse_screenshot (img_path x) = Some (index, page)"
    and others: "xs @ ys \<noteq> []"
  shows "ocr_loop maxRetries (img_service x) index page (img_path x) 0 []
       = Some (Failed, max 1 (nat maxRetries),
           map (\<lambda>k. min (500 * k) 5000) [1 ..< max 1 (nat maxRetries)])
     \<and> transcribe_all maxRetries (xs @ x # ys) = transcribe_all maxRetries (xs @ ys)
     \<and> (\<forall>cs. transcribe_all maxRetries (xs @ x # ys) = Written cs
           \<longrightarrow> (\<forall>c\<in>set cs. c_text c \<noteq> []))"
proof (intro conjI allI impI ballI)
  have "ocr_loop maxRetries (img_service x) index page (img_path x) 0 []
       = Some (Failed, max (Suc 0) (nat maxRetries),
           [] @ map (\<lambda>k. min (500 * k) 5000) [Suc 0 ..< max (Suc 0) (nat maxRetries)])"
    using refuses by (intro ocr_loop_permanent_refusal) blast
  then show loop: "ocr_loop maxRetries (img_service x) index page (img_path x) 0 []
       = Some (Failed, max 1 (nat maxRetries),
           map (\<lambda>k. min (500 * k) 5000) [1 ..< max 1 (nat maxRetries)])"
    by simp
  then have "image_result maxRetries x = Some (Some (Failed, max 1 (nat maxRetries),
           map (\<lambda>k. min (500 * k) 5000) [1 ..< max 1 (nat maxRetries)]))"
    using name by (simp add: image_result_def)
  then show "transcribe_all maxRetries (xs @ x # ys) = transcribe_all maxRetries (xs @ ys)"
    using others by (rule transcribe_all_drop_failed)
next
  fix cs c
  assume "transcribe_all maxRetries (xs @ x # ys) = Written cs" and "c \<in> set cs"
  then show "c_text c \<noteq> []"
    by (rule transcribe_all_chunk_text)
qed

theorem permanent_refusal_excluded_witness:
  "ocr_loop 3 always_refuses 1 2 ''out/b/pages/01-02.png'' 0 [] = Some (Failed, 3, [500, 1000])
   \<and> transcribe_all 3 [good_image, refusing_image] = transcribe_all 3 [good_image]"
proof -
  have "is_refusal (clean (''I'' @ [CHR 0x27] @ ''m sorry, I can'' @ [CHR 0x27] @ ''t assist with that.''))"
    by code_simp
  then have h1: "\<forall>k req. \<exists>raw. img_service refusing_image k req = Text raw \<and> is_refusal (clean raw)"
    by (simp add: refusing_image_def always_refuses_def)
  have h2: "parse_screenshot (img_path refusing_image) = Some (1, 2)"
    by code_simp
  have h3: "[good_image] @ [] \<noteq> []"
    by simp
  have h4: "map (\<lambda>k. min (500 * k) 5000) [1 ..< max 1 (nat 3)] = [500, 1000::nat]"
    by code_simp
  from permanent_refusal_excluded [OF h1 h2 h3, of 3] show ?thesis
    unfolding h4 by (simp add: refusing_image_def)
qed

subsection \<open>The capture loop\<close>



subsection \<open>A viewer that does not change\<close>







subsection \<open>A run that was stopped early has captured a page\<close>






end
